theory Spec2Isabelle
  imports Complex_Main "HOL-Library.Multiset" "HOL-Library.Sublist"
begin

section \<open>Numbers and their rendering\<close>

text \<open>
  The dashboard is TypeScript; its \<^verbatim>\<open>number\<close> is an IEEE 754 binary64 double. Where
  the page compares numbers, reorders them or hands them to a builtin (\<open>formatNumber\<close>,
  the statistics), a finite number is taken as the \<^typ>\<open>real\<close> it denotes. \<open>calculateMA\<close>
  adds, divides and rounds, and what it returns depends on the rounding of each step, so
  there the doubles are modelled with their rounding.
\<close>

text \<open>
  The decimal string itself, as \<^verbatim>\<open>toFixed\<close> builds it below \<open>10^21\<close>: an optional
  minus sign, the digits of \<open>n\<close> padded with zeros to \<open>f + 1\<close> places, and a point before
  the last \<open>f\<close> of them. (From \<open>10^21\<close> on JavaScript switches to exponent notation,
  which this rendering does not follow.) It is the instance at which the properties of
  \<open>formatNumber\<close>, stated for any \<^verbatim>\<open>toFixed\<close>, are tried.
\<close>

definition digit_char :: "nat \<Rightarrow> char" where
  "digit_char d = (''0123456789'' ! d)"

fun nat_digits :: "nat \<Rightarrow> string" where
  "nat_digits n =
     (if n < 10 then [digit_char n] else nat_digits (n div 10) @ [digit_char (n mod 10)])"

declare nat_digits.simps [simp del]

definition toFixed_decimal :: "real \<Rightarrow> nat \<Rightarrow> string" where
  "toFixed_decimal x f =
     (let n = nat \<lfloor>\<bar>x\<bar> * 10 ^ f + 1 / 2\<rfloor>;
          ds = nat_digits n;
          padded = replicate (f + 1 - length ds) (CHR ''0'') @ ds;
          k = length padded - f;
          body = (if f = 0 then padded else take k padded @ ''.'' @ drop k padded)
      in (if x < 0 then ''-'' else '''') @ body)"

section \<open>formatNumber\<close>

text \<open>
  \<^verbatim>\<open>
  const formatNumber = (num: number | null | undefined): string => {
    if (num === null || num === undefined) return '-';
    if (num >= 1000000) { return (num / 1000000).toFixed(1) + 'M'; }
    if (num >= 1000)    { return (num / 1000).toFixed(1) + 'K'; }
    return num.toFixed(1);
  };
  \<close>
  The argument type is the union as written. \<^verbatim>\<open>toFixed\<close> is a builtin of the
  language, not code of the page, so \<open>formatNumber\<close> takes it as a parameter: the number
  and the count of decimals go in, the string comes out.
\<close>

datatype num_arg = Null | Undefined | Number real

definition formatNumber :: "(real \<Rightarrow> nat \<Rightarrow> string) \<Rightarrow> num_arg \<Rightarrow> string" where
  "formatNumber toFixed num =
     (case num of
        Null \<Rightarrow> ''-''
      | Undefined \<Rightarrow> ''-''
      | Number n \<Rightarrow>
          if n \<ge> 1000000 then toFixed (n / 1000000) 1 @ ''M''
          else if n \<ge> 1000 then toFixed (n / 1000) 1 @ ''K''
          else toFixed n 1)"

section \<open>Doubles\<close>

text \<open>
  A number is a finite value, \<^verbatim>\<open>Infinity\<close>, \<^verbatim>\<open>-Infinity\<close> or \<^verbatim>\<open>NaN\<close>. A finite
  value is given by the real it denotes, and it is a number of the language when that
  real is representable in binary64. The two zeros are one value here: \<open>calculateMA\<close>
  never divides by a sum or a quotient, so its results are the same numbers for either.
\<close>

datatype double = Finite real | Infinity | NegInfinity | NaN

text \<open>
  \<open>pow2 e\<close> is \<open>2^e\<close>. \<open>exponent x\<close> is the binary exponent of \<open>x\<close>, the \<open>e\<close> with
  \<open>2^e \<le> |x| < 2^(e+1)\<close>, found by bisection from the least exponent of a normal
  double, \<open>-1022\<close>, upwards; it stays at \<open>-1022\<close> for the subnormal numbers and for 0.
\<close>

definition pow2 :: "int \<Rightarrow> real" where
  "pow2 e = (if 0 \<le> e then 2 ^ nat e else 1 / 2 ^ nat (- e))"

definition exponent :: "real \<Rightarrow> int" where
  "exponent x =
     fold (\<lambda>k e. if pow2 (e + k) \<le> \<bar>x\<bar> then e + k else e)
       [1024, 512, 256, 128, 64, 32, 16, 8, 4, 2, 1] (- 1022)"

text \<open>The nearest integer, the even one of the two on a tie.\<close>

definition round_even :: "real \<Rightarrow> int" where
  "round_even y =
     (let f = \<lfloor>y\<rfloor> in
      if y - real_of_int f < 1 / 2 then f
      else if 1 / 2 < y - real_of_int f then f + 1
      else if even f then f else f + 1)"

text \<open>
  The double of a real, as every arithmetic operation and every reading of a decimal
  string produces it (IEEE 754, round to nearest, ties to even): the multiple of the unit
  in the last place, \<open>2^(e - 52)\<close>, nearest to \<open>x\<close>; an infinity when that multiple
  reaches \<open>2^1024\<close>.
\<close>

definition round_double :: "real \<Rightarrow> double" where
  "round_double x =
     (let u = pow2 (exponent x - 52);
          y = real_of_int (round_even (x / u)) * u
      in if pow2 1024 \<le> \<bar>y\<bar> then (if 0 < x then Infinity else NegInfinity)
         else Finite y)"

text \<open>
  \<^verbatim>\<open>a + b\<close> on numbers: \<^verbatim>\<open>NaN\<close> when either is \<^verbatim>\<open>NaN\<close> or the two are
  infinities of opposite sign, the infinity when one is infinite, and the rounded sum of
  two finite values.
\<close>

fun fadd :: "double \<Rightarrow> double \<Rightarrow> double" where
  "fadd NaN _ = NaN"
| "fadd _ NaN = NaN"
| "fadd Infinity NegInfinity = NaN"
| "fadd NegInfinity Infinity = NaN"
| "fadd Infinity _ = Infinity"
| "fadd _ Infinity = Infinity"
| "fadd NegInfinity _ = NegInfinity"
| "fadd _ NegInfinity = NegInfinity"
| "fadd (Finite a) (Finite b) = round_double (a + b)"

text \<open>
  \<^verbatim>\<open>a / w\<close> for a number \<open>a\<close> and an integer \<open>w\<close>: the rounded quotient of a finite
  value by a \<open>w\<close> other than 0; \<^verbatim>\<open>0 / 0\<close> is \<^verbatim>\<open>NaN\<close>, any other finite value over 0
  is the infinity of its sign, and an infinity keeps or changes its sign with that of
  \<open>w\<close>.
\<close>

fun fdiv_int :: "double \<Rightarrow> int \<Rightarrow> double" where
  "fdiv_int NaN w = NaN"
| "fdiv_int Infinity w = (if w < 0 then NegInfinity else Infinity)"
| "fdiv_int NegInfinity w = (if w < 0 then Infinity else NegInfinity)"
| "fdiv_int (Finite a) w =
     (if w = 0 then (if a = 0 then NaN else if 0 < a then Infinity else NegInfinity)
      else round_double (a / real_of_int w))"

text \<open>
  \<^verbatim>\<open>+x.toFixed(f)\<close>: the number that the string of \<^verbatim>\<open>toFixed\<close> reads back as.
  ECMA-262 (Number.prototype.toFixed): for a finite \<open>x\<close> below \<open>10^21\<close> in magnitude the
  sign is split off and the digits are those of the integer \<open>n\<close> for which \<open>n / 10^f\<close> is
  closest to the exact magnitude of \<open>x\<close>, the larger \<open>n\<close> on a tie; the unary plus reads
  the decimal \<open>n / 10^f\<close>, with its sign, as the nearest double. From \<open>10^21\<close> on, and for
  \<^verbatim>\<open>NaN\<close> and the infinities, the string is the number's own and reads back as the
  number itself.
\<close>

fun toFixed_number :: "nat \<Rightarrow> double \<Rightarrow> double" where
  "toFixed_number f (Finite x) =
     (if 10 ^ 21 \<le> \<bar>x\<bar> then Finite x
      else round_double (sgn x * real_of_int \<lfloor>\<bar>x\<bar> * 10 ^ f + 1 / 2\<rfloor> / 10 ^ f))"
| "toFixed_number f v = v"

section \<open>calculateMA\<close>

text \<open>
  \<^verbatim>\<open>
  const calculateMA = (data: any[], dayCount: number) => {
    const result = [];
    for (let i = 0, len = data.length; i < len; i++) {
      if (i < dayCount - 1) { result.push('-'); continue; }
      let sum = 0;
      for (let j = 0; j < dayCount; j++) { sum += data[i - j][1]; }
      result.push(+(sum / dayCount).toFixed(2));
    }
    return result;
  };
  \<close>
  \<open>data\<close> is a list of rows, a row a list of numbers, and the value of a bucket is the
  row's entry at index 1. An entry of the result is the string \<^verbatim>\<open>'-'\<close> (\<open>Dash\<close>) or a
  number. A row with no index 1 reads as \<^verbatim>\<open>undefined\<close>, and adding it turns the sum
  into \<^verbatim>\<open>NaN\<close>; \<open>cell\<close> gives that \<^verbatim>\<open>NaN\<close> at once. The source's \<^verbatim>\<open>sum\<close> is \<open>acc\<close>,
  and the inner loop adds the values at \<open>i, i - 1, \<dots>\<close> in this order to it. \<open>dayCount\<close>
  is an integer. The guard \<^verbatim>\<open>i < dayCount - 1\<close> keeps \<open>i - j\<close> inside the list whenever
  the inner loop runs.
\<close>

datatype ma_entry = Dash | Value double

definition cell :: "double list list \<Rightarrow> int \<Rightarrow> double" where
  "cell data k =
     (if 0 \<le> k \<and> k < int (length data) \<and> 1 < length (data ! nat k)
      then data ! nat k ! 1 else NaN)"

definition window_sum :: "double list list \<Rightarrow> nat \<Rightarrow> int \<Rightarrow> double" where
  "window_sum data i dayCount =
     fold (\<lambda>j acc. fadd acc (cell data (int i - int j))) [0..<nat dayCount] (Finite 0)"

definition ma_at :: "double list list \<Rightarrow> int \<Rightarrow> nat \<Rightarrow> ma_entry" where
  "ma_at data dayCount i =
     (if int i < dayCount - 1 then Dash
      else Value (toFixed_number 2 (fdiv_int (window_sum data i dayCount) dayCount)))"

definition calculateMA :: "double list list \<Rightarrow> int \<Rightarrow> ma_entry list" where
  "calculateMA data dayCount = map (ma_at data dayCount) [0..<length data]"

text \<open>
  What links the result to the arithmetic mean: \<open>exact_sums a vs\<close> says that the values
  \<open>vs\<close> are finite and that adding them one after the other to \<open>a\<close> never rounds, so
  that the double sum is the sum of the reals; \<open>finite_value\<close> is the real of a finite
  number.
\<close>

fun finite_value :: "double \<Rightarrow> real" where
  "finite_value (Finite x) = x"
| "finite_value _ = 0"

fun exact_sums :: "real \<Rightarrow> double list \<Rightarrow> bool" where
  "exact_sums a [] = True"
| "exact_sums a (Finite b # vs) = (round_double (a + b) = Finite (a + b) \<and> exact_sums (a + b) vs)"
| "exact_sums a (_ # vs) = False"

text \<open>
  Two inputs the moving average is tried on, as rows \<^verbatim>\<open>[index, close]\<close>: the close
  prices \<open>10, 12, 8, 15, 20\<close>, and the close prices \<open>0.375, 0, 0, 0, 0\<close>.
\<close>

definition closes :: "double list list" where
  "closes = [[Finite 0, Finite 10], [Finite 1, Finite 12], [Finite 2, Finite 8],
             [Finite 3, Finite 15], [Finite 4, Finite 20]]"

definition small_closes :: "double list list" where
  "small_closes = [[Finite 0, Finite (3 / 8)], [Finite 1, Finite 0], [Finite 2, Finite 0],
                   [Finite 3, Finite 0], [Finite 4, Finite 0]]"

section \<open>The statistics of the home page\<close>

text \<open>
  \<^verbatim>\<open>
  interface ItemStats { id: number; name: string; name_cn: string;
    current_price: number; old_price: number; change_percentage: number; }
  interface StatsData { day7: ItemStats[]; day1: ItemStats[]; }
  \<close>
  The fields \<^verbatim>\<open>id\<close> and \<^verbatim>\<open>name\<close> are \<open>stat_id\<close> and \<open>stat_name\<close> here.
\<close>

record ItemStats =
  stat_id :: int
  stat_name :: string
  name_cn :: string
  current_price :: real
  old_price :: real
  change_percentage :: real

record StatsData =
  day7 :: "ItemStats list"
  day1 :: "ItemStats list"

text \<open>
  \<^verbatim>\<open>
  statsResult.data.day7.sort((a, b) =>
    Math.abs(b.change_percentage) - Math.abs(a.change_percentage))
  \<close>
  \<^verbatim>\<open>Array.prototype.sort\<close> is a stable sort by the comparator (ECMAScript 2019): an
  element comes before another when the comparator is negative, and elements that compare
  equal keep their order. \<open>array_sort\<close> is the stable insertion sort by a comparator:
  an element, coming from the left of those already placed, goes before the first one it
  does not compare greater than.
\<close>

definition compareFn :: "ItemStats \<Rightarrow> ItemStats \<Rightarrow> real" where
  "compareFn a b = \<bar>change_percentage b\<bar> - \<bar>change_percentage a\<bar>"

fun insert_cmp :: "('a \<Rightarrow> 'a \<Rightarrow> real) \<Rightarrow> 'a \<Rightarrow> 'a list \<Rightarrow> 'a list" where
  "insert_cmp cmp x [] = [x]"
| "insert_cmp cmp x (y # ys) =
     (if cmp x y \<le> 0 then x # y # ys else y # insert_cmp cmp x ys)"

definition array_sort :: "('a \<Rightarrow> 'a \<Rightarrow> real) \<Rightarrow> 'a list \<Rightarrow> 'a list" where
  "array_sort cmp xs = foldr (insert_cmp cmp) xs []"

text \<open>
  \<^verbatim>\<open>fetchData\<close>, on a response with code 0: both lists sorted, then stored as the
  page's \<^verbatim>\<open>stats\<close>.
\<close>

definition sortStats :: "StatsData \<Rightarrow> StatsData" where
  "sortStats d =
     \<lparr>day7 = array_sort compareFn (day7 d), day1 = array_sort compareFn (day1 d)\<rparr>"

text \<open>
  The four tables of the page, each
  \<^verbatim>\<open>stats.day7.filter(item => item.change_percentage > 0).slice(0, 5)\<close>
  with its own list and sign. (The \<^verbatim>\<open>map\<close> that follows only adds the row key React
  asks for.)
\<close>

definition gainers :: "ItemStats list \<Rightarrow> ItemStats list" where
  "gainers xs = filter (\<lambda>item. change_percentage item > 0) xs"

definition losers :: "ItemStats list \<Rightarrow> ItemStats list" where
  "losers xs = filter (\<lambda>item. change_percentage item < 0) xs"

definition slice_0_5 :: "'a list \<Rightarrow> 'a list" where
  "slice_0_5 xs = take 5 xs"

definition top5_up_7d :: "StatsData \<Rightarrow> ItemStats list" where
  "top5_up_7d stats = slice_0_5 (gainers (day7 stats))"

definition top5_down_7d :: "StatsData \<Rightarrow> ItemStats list" where
  "top5_down_7d stats = slice_0_5 (losers (day7 stats))"

definition top5_up_24h :: "StatsData \<Rightarrow> ItemStats list" where
  "top5_up_24h stats = slice_0_5 (gainers (day1 stats))"

definition top5_down_24h :: "StatsData \<Rightarrow> ItemStats list" where
  "top5_down_24h stats = slice_0_5 (losers (day1 stats))"

text \<open>
  The comparator orders by the key \<open>- |change_percentage|\<close>; \<open>stat\<close> builds an entry
  with a given id and change for the examples.
\<close>

definition abs_key :: "ItemStats \<Rightarrow> real" where
  "abs_key e = - \<bar>change_percentage e\<bar>"

definition stat :: "int \<Rightarrow> real \<Rightarrow> ItemStats" where
  "stat i c = \<lparr>stat_id = i, stat_name = ''item'', name_cn = ''item'',
               current_price = 100 + c, old_price = 100, change_percentage = c\<rparr>"

section \<open>The synchronisation of the two databases\<close>

text \<open>
  The script that copies the SQLite tables into MySQL is not among the sources; the
  repository describes it in its database notes, which give the two schemas as SQL and
  the strategy of the copy. The tables below follow those schemas; the copy itself is
  modelled from the description.

  SQLite, tables \<^verbatim>\<open>ask\<close> and \<^verbatim>\<open>bid\<close>: the first column is the timestamp (INTEGER),
  every other column is the price of one item (INTEGER or REAL), and the column's name is
  the item's name. A cell may hold no value.
\<close>

datatype side = Ask | Bid

datatype raw_cell = Absent | IntCell int | RealCell real

record raw_table =
  columns :: "string list"
  table_rows :: "(int \<times> raw_cell list) list"

record raw_store =
  ask :: raw_table
  bid :: raw_table

text \<open>
  MySQL:
  \<^verbatim>\<open>
  CREATE TABLE items (id INT PRIMARY KEY AUTO_INCREMENT,
                      name VARCHAR(255) NOT NULL, UNIQUE KEY (name))
  CREATE TABLE prices (id INT PRIMARY KEY AUTO_INCREMENT, timestamp INT NOT NULL,
                       item_id INT NOT NULL, price DOUBLE NOT NULL,
                       type ENUM('ask', 'bid') NOT NULL,
                       INDEX (timestamp, item_id, type))
  \<close>
  A price observation is a row of \<^verbatim>\<open>prices\<close> without its surrogate key, as the
  specification's data model has it. \<open>next_id\<close> is the AUTO_INCREMENT counter of
  \<^verbatim>\<open>items\<close>.
\<close>

record item =
  item_id :: nat
  item_name :: string

record price_obs =
  timestamp :: int
  obs_item :: nat
  price :: real
  side :: side

record normalized =
  items :: "item list"
  next_id :: nat
  prices :: "price_obs list"

text \<open>
  Modelled from the spec: the coercion of a raw price cell (the sync script is not in the
  sources). An INTEGER or REAL cell becomes the one price type; an absent cell gives no
  price. The price type is \<^typ>\<open>real\<close> here, so nothing is said about the precision
  of a DOUBLE.
\<close>

definition to_double :: "raw_cell \<Rightarrow> real option" where
  "to_double c =
     (case c of Absent \<Rightarrow> None | IntCell n \<Rightarrow> Some (real_of_int n) | RealCell r \<Rightarrow> Some r)"

text \<open>
  Modelled from the spec: the registration of one item name (the sync script is not in
  the sources), \<^verbatim>\<open>INSERT IGNORE INTO items (name)\<close>: a name the table holds already is
  left alone by the unique key, a new name gets the next identifier.
\<close>

definition register_item :: "string \<Rightarrow> normalized \<Rightarrow> normalized" where
  "register_item n S =
     (if n \<in> set (map item_name (items S)) then S
      else S\<lparr>items := items S @ [\<lparr>item_id = next_id S, item_name = n\<rparr>],
             next_id := next_id S + 1\<rparr>)"

text \<open>
  Modelled from the spec: the item names a sync observes (the sync script is not in the
  sources), the price columns of both raw tables.
\<close>

definition raw_names :: "raw_store \<Rightarrow> string list" where
  "raw_names R = columns (ask R) @ columns (bid R)"

text \<open>
  Modelled from the spec: the identifier of a name in the item table (the sync script is
  not in the sources).
\<close>

definition lookup_id :: "item list \<Rightarrow> string \<Rightarrow> nat option" where
  "lookup_id its n = map_option item_id (find (\<lambda>it. item_name it = n) its)"

text \<open>
  Modelled from the spec: the pivot of one raw row and of one raw table (the sync script
  is not in the sources). Every cell that holds a value gives one observation with the
  row's timestamp, the identifier of the column's item and the table's side; an absent
  cell gives none.
\<close>

definition pivot_row ::
  "side \<Rightarrow> item list \<Rightarrow> string list \<Rightarrow> int \<times> raw_cell list \<Rightarrow> price_obs list" where
  "pivot_row sd its cols row =
     List.map_filter
       (\<lambda>(n, c). case (lookup_id its n, to_double c) of
                    (Some i, Some p) \<Rightarrow>
                      Some \<lparr>timestamp = fst row, obs_item = i, price = p, side = sd\<rparr>
                  | _ \<Rightarrow> None)
       (zip cols (snd row))"

text \<open>
  Modelled from the spec: the pivot of a whole raw table, row after row (the sync script is not in
  the sources).
\<close>

definition pivot :: "side \<Rightarrow> item list \<Rightarrow> raw_table \<Rightarrow> price_obs list" where
  "pivot sd its tbl = concat (map (pivot_row sd its (columns tbl)) (table_rows tbl))"

text \<open>
  Modelled from the spec: the batched insert (the sync script is not in the sources).
  The rows are cut into batches of a fixed size and the batches are appended to the
  table one after the other.
\<close>

function batches :: "nat \<Rightarrow> 'a list \<Rightarrow> 'a list list" where
  "batches n xs = (if n = 0 \<or> xs = [] then [] else take n xs # batches n (drop n xs))"
  by pat_completeness auto
termination
  by (relation "measure (\<lambda>(n, xs). length xs)") auto

declare batches.simps [simp del]

text \<open>
  Modelled from the spec: the batches written to the table one after the other (the sync script
  is not in the sources).
\<close>

definition write_batches :: "price_obs list list \<Rightarrow> price_obs list \<Rightarrow> price_obs list" where
  "write_batches bs tbl = fold (\<lambda>b acc. acc @ b) bs tbl"

text \<open>
  Modelled from the spec: one sync cycle (the sync script is not in the sources). The
  items are synchronised incrementally, every observed name registered in turn; the
  price table is cleared and filled again from both raw tables, in batches of 1000 rows.
  \<open>sync_all\<close> is a sequence of cycles, one per state of the raw store.
\<close>

definition sync :: "raw_store \<Rightarrow> normalized \<Rightarrow> normalized" where
  "sync R S =
     (let S1 = fold register_item (raw_names R) S;
          rows = pivot Ask (items S1) (ask R) @ pivot Bid (items S1) (bid R)
      in S1\<lparr>prices := write_batches (batches 1000 rows) []\<rparr>)"

text \<open>
  Modelled from the spec: a sequence of sync cycles (the sync script is not in the sources).
\<close>

definition sync_all :: "raw_store list \<Rightarrow> normalized \<Rightarrow> normalized" where
  "sync_all Rs S = fold sync Rs S"

text \<open>Two raw stores and two normalized stores for the examples.\<close>

definition raw_example :: raw_store where
  "raw_example =
     \<lparr>ask = \<lparr>columns = [''Milk'', ''Cheese''],
             table_rows = [(100, [IntCell 100, Absent]), (200, [RealCell 12.5, IntCell 7])]\<rparr>,
      bid = \<lparr>columns = [''Milk''], table_rows = [(100, [IntCell 90])]\<rparr>\<rparr>"

definition raw_example2 :: raw_store where
  "raw_example2 =
     \<lparr>ask = \<lparr>columns = [''Milk'', ''Egg''], table_rows = [(300, [IntCell 110, IntCell 3])]\<rparr>,
      bid = \<lparr>columns = [''Milk''], table_rows = []\<rparr>\<rparr>"

definition empty_store :: normalized where
  "empty_store = \<lparr>items = [], next_id = 1, prices = []\<rparr>"

definition store_example :: normalized where
  "store_example =
     \<lparr>items = [\<lparr>item_id = 1, item_name = ''Milk''\<rparr>, \<lparr>item_id = 2, item_name = ''Cheese''\<rparr>],
      next_id = 3, prices = []\<rparr>"

section \<open>The change rankings behind the dashboard\<close>

text \<open>
  The server that computes the rankings is not among the sources; the page only declares
  the shape of what it receives (\<^verbatim>\<open>ItemStats\<close>). The computation is modelled from the
  specification.
\<close>

record change_ranking =
  rank_item :: nat
  rank_old_price :: real
  rank_current_price :: real
  rank_change :: real

text \<open>
  Modelled from the spec: the price of the latest observation of item \<open>i\<close> at or before
  time \<open>t\<close> (the server's computeChangeRankings is not in the sources); none when the
  item has no observation in that range.
\<close>

definition latest_at_or_before :: "int \<Rightarrow> nat \<Rightarrow> price_obs list \<Rightarrow> real option" where
  "latest_at_or_before t i obs =
     (case sort_key timestamp (filter (\<lambda>x. obs_item x = i \<and> timestamp x \<le> t) obs) of
        [] \<Rightarrow> None
      | x # xs \<Rightarrow> Some (price (last (x # xs))))"

text \<open>
  Modelled from the spec: the ranking entry of one item (the server's
  computeChangeRankings is not in the sources). The reference price is the latest at or
  before \<open>now - lookbackWindow\<close>, the current price the latest at or before \<open>now\<close>; an
  item with either of them undefined, or with reference price 0, has no entry.
\<close>

definition ranking_entry ::
  "int \<Rightarrow> int \<Rightarrow> price_obs list \<Rightarrow> nat \<Rightarrow> change_ranking option" where
  "ranking_entry now lookbackWindow obs i =
     (case (latest_at_or_before (now - lookbackWindow) i obs, latest_at_or_before now i obs) of
        (Some reference, Some current) \<Rightarrow>
          if reference = 0 then None
          else Some \<lparr>rank_item = i, rank_old_price = reference, rank_current_price = current,
                     rank_change = (current - reference) / reference * 100\<rparr>
      | _ \<Rightarrow> None)"

text \<open>
  Modelled from the spec: computeChangeRankings and its two partitions (the server's
  function is not in the sources): the entries of the items that have one, the gainers
  those of positive change, the losers those of negative change.
\<close>

definition computeChangeRankings ::
  "int \<Rightarrow> int \<Rightarrow> item list \<Rightarrow> price_obs list \<Rightarrow> change_ranking list" where
  "computeChangeRankings now lookbackWindow its obs =
     List.map_filter (ranking_entry now lookbackWindow obs) (map item_id its)"

text \<open>
  Modelled from the spec: the gainers, the entries of positive change (the server's function is
  not in the sources).
\<close>

definition rank_gainers :: "change_ranking list \<Rightarrow> change_ranking list" where
  "rank_gainers rs = filter (\<lambda>r. rank_change r > 0) rs"

text \<open>
  Modelled from the spec: the losers, the entries of negative change (the server's function is
  not in the sources).
\<close>

definition rank_losers :: "change_ranking list \<Rightarrow> change_ranking list" where
  "rank_losers rs = filter (\<lambda>r. rank_change r < 0) rs"

text \<open>The items and observations of the example.\<close>

definition ranking_items :: "item list" where
  "ranking_items =
     [\<lparr>item_id = 10, item_name = ''Milk''\<rparr>, \<lparr>item_id = 20, item_name = ''Egg''\<rparr>,
      \<lparr>item_id = 30, item_name = ''Cheese''\<rparr>]"

definition ranking_obs :: "price_obs list" where
  "ranking_obs =
     [\<lparr>timestamp = 900, obs_item = 10, price = 100, side = Ask\<rparr>,
      \<lparr>timestamp = 950, obs_item = 10, price = 110, side = Ask\<rparr>,
      \<lparr>timestamp = 1000, obs_item = 10, price = 120, side = Ask\<rparr>,
      \<lparr>timestamp = 1000, obs_item = 20, price = 50, side = Ask\<rparr>,
      \<lparr>timestamp = 900, obs_item = 30, price = 0, side = Ask\<rparr>,
      \<lparr>timestamp = 1000, obs_item = 30, price = 5, side = Ask\<rparr>]"

section \<open>Properties of formatNumber\<close>

lemma nat_digits_nonempty: "nat_digits n \<noteq> []"
  by (subst nat_digits.simps) simp

lemma toFixed_decimal_length: "0 < f \<Longrightarrow> 3 \<le> length (toFixed_decimal x f)"
proof -
  assume f: "0 < f"
  define ds where "ds = nat_digits (nat \<lfloor>\<bar>x\<bar> * 10 ^ f + 1 / 2\<rfloor>)"
  define padded where "padded = replicate (f + 1 - length ds) (CHR ''0'') @ ds"
  have "f + 1 \<le> length padded"
    by (simp add: padded_def)
  then have "f + 2 \<le> length (take (length padded - f) padded @ ''.'' @ drop (length padded - f) padded)"
    by simp
  with f show ?thesis
    by (simp add: toFixed_decimal_def Let_def ds_def [symmetric] padded_def [symmetric])
qed

lemma toFixed_decimal_not_dash: "toFixed_decimal x 1 \<noteq> ''-''"
proof
  assume "toFixed_decimal x 1 = ''-''"
  then have "length (toFixed_decimal x 1) = 1"
    by simp
  moreover have "3 \<le> length (toFixed_decimal x 1)"
    by (rule toFixed_decimal_length) simp
  ultimately show False
    by simp
qed

lemma nat_digits_15: "nat_digits 15 = ''15''"
  by (simp add: nat_digits.simps [of 15] nat_digits.simps [of 1]
      nat_digits.simps [of "Suc 0"] digit_char_def)

text \<open>
  C10. \<open>formatNumber\<close> returns a string for every argument. It is \<^verbatim>\<open>'-'\<close> for
  \<^verbatim>\<open>null\<close> and for \<^verbatim>\<open>undefined\<close>; for a number it is
  \<^verbatim>\<open>(num / 1000000).toFixed(1) + 'M'\<close> from a million on,
  \<^verbatim>\<open>(num / 1000).toFixed(1) + 'K'\<close> from a thousand up to a million, and
  \<^verbatim>\<open>num.toFixed(1)\<close> below. Since \<^verbatim>\<open>toFixed\<close> never yields the lone string
  \<^verbatim>\<open>'-'\<close> (the hypothesis on the builtin), the result is \<^verbatim>\<open>'-'\<close> exactly when
  the argument is \<^verbatim>\<open>null\<close> or \<^verbatim>\<open>undefined\<close>: an absent value is never shown as a
  number and a number, zero included, never as \<^verbatim>\<open>'-'\<close>.
\<close>

theorem formatNumber_cases:
  assumes "\<And>x. toFixed x 1 \<noteq> ''-''"
  shows "formatNumber toFixed Null = ''-''
       \<and> formatNumber toFixed Undefined = ''-''
       \<and> (formatNumber toFixed a = ''-'' \<longleftrightarrow> a = Null \<or> a = Undefined)
       \<and> formatNumber toFixed (Number num) =
           (if num \<ge> 1000000 then toFixed (num / 1000000) 1 @ ''M''
            else if 1000 \<le> num \<and> num < 1000000 then toFixed (num / 1000) 1 @ ''K''
            else toFixed num 1)"
proof -
  have dash: "s @ [c] = ''-'' \<longleftrightarrow> s = [] \<and> c = CHR ''-''" for s :: string and c
    by (cases s) auto
  have "formatNumber toFixed a = ''-'' \<longleftrightarrow> a = Null \<or> a = Undefined"
  proof (cases a)
    case (Number n)
    then show ?thesis
      using assms [of n] assms [of "n / 1000"] assms [of "n / 1000000"]
      by (simp add: formatNumber_def dash)
  qed (simp_all add: formatNumber_def)
  then show ?thesis
    by (simp add: formatNumber_def)
qed

theorem formatNumber_cases_witness:
  "(\<forall>x. toFixed_decimal x 1 \<noteq> ''-'')
   \<and> formatNumber toFixed_decimal (Number 1500) = ''1.5K''
   \<and> formatNumber toFixed_decimal (Number 1500) \<noteq> ''-''
   \<and> formatNumber toFixed_decimal Null = ''-''"
proof -
  have h: "\<And>x. toFixed_decimal x 1 \<noteq> ''-''"
    by (rule toFixed_decimal_not_dash)
  have k: "toFixed_decimal (1500 / 1000) 1 = ''1.5''"
    by (simp add: toFixed_decimal_def nat_digits_15 Let_def)
  from formatNumber_cases [of toFixed_decimal "Number 1500" 1500, OF h] h k show ?thesis
    by simp
qed

section \<open>Properties of calculateMA\<close>

lemma cell_value:
  assumes "j \<le> i" and "i < length data" and "\<forall>row \<in> set data. 2 \<le> length row"
  shows "cell data (int i - int j) = data ! (i - j) ! 1"
proof -
  have lt: "i - j < length data" using assms(2) by simp
  then have "data ! (i - j) \<in> set data" by (rule nth_mem)
  with assms(3) have "2 \<le> length (data ! (i - j))" by blast
  then have one: "1 < length (data ! (i - j))" by linarith
  have "int i - int j = int (i - j)" using assms(1) by (simp add: of_nat_diff)
  then have "cell data (int i - int j) = cell data (int (i - j))" by (simp only:)
  also have "\<dots> = data ! (i - j) ! 1"
    unfolding cell_def using lt one by simp
  finally show ?thesis .
qed

lemma fold_window:
  assumes "i < length data" and "\<forall>row \<in> set data. 2 \<le> length row" and "n \<le> i + 1"
  shows "fold (\<lambda>j acc. fadd acc (cell data (int i - int j))) [0..<n] z
       = foldl fadd z (map (\<lambda>j. data ! (i - j) ! 1) [0..<n])"
  using assms(3)
proof (induction n)
  case 0
  then show ?case by simp
next
  case (Suc n)
  then have "n \<le> i" by simp
  then have c: "cell data (int i - int n) = data ! (i - n) ! 1"
    using assms(1,2) by (rule cell_value)
  have IH: "fold (\<lambda>j acc. fadd acc (cell data (int i - int j))) [0..<n] z
       = foldl fadd z (map (\<lambda>j. data ! (i - j) ! 1) [0..<n])"
    using Suc by simp
  show ?case
    by (simp only: upt_Suc_append [OF le0] fold_append o_apply fold_simps IH c
        map_append list.map foldl_append foldl.simps)
qed

lemma window_sum_rows:
  assumes "\<forall>row \<in> set data. 2 \<le> length row" and "i < length data"
    and "1 \<le> w" and "w - 1 \<le> int i"
  shows "window_sum data i w = foldl fadd (Finite 0) (map (\<lambda>j. data ! (i - j) ! 1) [0..<nat w])"
proof -
  have "nat w \<le> i + 1" using assms(3,4) by simp
  with assms(2,1) show ?thesis
    unfolding window_sum_def by (rule fold_window)
qed

lemma calculateMA_nth: "i < length data \<Longrightarrow> calculateMA data w ! i = ma_at data w i"
  by (simp add: calculateMA_def)

lemma foldl_exact:
  "exact_sums a vs \<Longrightarrow> foldl fadd (Finite a) vs = Finite (a + sum_list (map finite_value vs))"
proof (induction a vs rule: exact_sums.induct)
  case (1 a)
  then show ?case by simp
next
  case (2 a b vs)
  then show ?case by (simp add: add.assoc)
qed simp_all

text \<open>
  C4, as the code has it. For a window \<open>w \<ge> 1\<close> and rows that all carry a value at
  index 1, the result has one entry per row. At every index below \<open>w - 1\<close> it is the
  string \<^verbatim>\<open>'-'\<close>, a marker and not the number zero. From index \<open>w - 1\<close> on it is the
  arithmetic mean of the values at indices \<open>i - w + 1\<close> to \<open>i\<close> as double arithmetic
  computes it and \<^verbatim>\<open>toFixed(2)\<close> rounds it: the values are added to 0 from index \<open>i\<close>
  downwards, every sum rounded to a double, the sum is divided by \<open>w\<close>, the quotient
  rounded to a double, and the quotient is rounded to two decimals. Where no addition
  rounds, that is the arithmetic mean of the values, rounded to the nearest double and
  then to two decimals. For the close prices \<open>10, 12, 8, 15, 20\<close> and \<open>w = 3\<close> the entry
  at index 4 is the number \<open>14.33\<close> and the entries at indices 0 and 1 are \<^verbatim>\<open>'-'\<close>.
\<close>

theorem calculateMA_spec:
  assumes "1 \<le> w" and "\<forall>row \<in> set data. 2 \<le> length row"
  shows "length (calculateMA data w) = length data
       \<and> (\<forall>i < length data.
            calculateMA data w ! i =
              (if int i < w - 1 then Dash
               else Value (toFixed_number 2
                      (fdiv_int
                        (foldl fadd (Finite 0) (map (\<lambda>j. data ! (i - j) ! 1) [0..<nat w]))
                        w))))
       \<and> (\<forall>i < length data.
            \<not> int i < w - 1 \<and> exact_sums 0 (map (\<lambda>j. data ! (i - j) ! 1) [0..<nat w]) \<longrightarrow>
            calculateMA data w ! i =
              Value (toFixed_number 2 (round_double
                (sum_list (map (\<lambda>j. finite_value (data ! (i - j) ! 1)) [0..<nat w])
                   / real_of_int w))))"
proof -
  have entry: "calculateMA data w ! i =
      (if int i < w - 1 then Dash
       else Value (toFixed_number 2
              (fdiv_int
                (foldl fadd (Finite 0) (map (\<lambda>j. data ! (i - j) ! 1) [0..<nat w])) w)))"
    if i: "i < length data" for i
  proof (cases "int i < w - 1")
    case True
    then show ?thesis using i by (simp add: calculateMA_nth ma_at_def)
  next
    case False
    then have "w - 1 \<le> int i" by simp
    from window_sum_rows [OF assms(2) i assms(1) this] False i
    show ?thesis by (simp add: calculateMA_nth ma_at_def)
  qed
  have mean: "calculateMA data w ! i =
      Value (toFixed_number 2 (round_double
        (sum_list (map (\<lambda>j. finite_value (data ! (i - j) ! 1)) [0..<nat w]) / real_of_int w)))"
    if i: "i < length data" and ge: "\<not> int i < w - 1"
      and ex: "exact_sums 0 (map (\<lambda>j. data ! (i - j) ! 1) [0..<nat w])" for i
  proof -
    have "foldl fadd (Finite 0) (map (\<lambda>j. data ! (i - j) ! 1) [0..<nat w])
        = Finite (sum_list (map (\<lambda>j. finite_value (data ! (i - j) ! 1)) [0..<nat w]))"
      using foldl_exact [OF ex] by (simp add: o_def)
    moreover have "w \<noteq> 0" using assms(1) by simp
    ultimately show ?thesis
      using entry [OF i] ge by simp
  qed
  from entry mean show ?thesis by (simp add: calculateMA_def)
qed

text \<open>
  The values of \<open>exponent\<close> and \<open>round_double\<close> that the two examples need, and the
  steps of the two computations.
\<close>

lemma closes_rows: "\<forall>row \<in> set closes. 2 \<le> length row"
  by (simp add: closes_def)

lemma exponent_values:
  "exponent 0 = - 1022" "exponent 20 = 4" "exponent 35 = 5" "exponent 43 = 5"
  "exponent (43 / 3) = 3" "exponent (1433 / 100) = 3"
  "exponent (3 / 8) = - 2" "exponent (3 / 40) = - 4" "exponent (7 / 100) = - 4"
  "exponent (2 / 25) = - 4"
  by (simp_all add: exponent_def pow2_def)

lemma round_double_values:
  "round_double 0 = Finite 0" "round_double 20 = Finite 20" "round_double 35 = Finite 35"
  "round_double 43 = Finite 43"
  "round_double (43 / 3) = Finite (8068949332372139 / 562949953421312)"
  "round_double (1433 / 100) = Finite (8067072832527401 / 562949953421312)"
  "round_double (3 / 8) = Finite (3 / 8)"
  "round_double (3 / 40) = Finite (5404319552844595 / 72057594037927936)"
  "round_double (7 / 100) = Finite (1261007895663739 / 18014398509481984)"
  "round_double (2 / 25) = Finite (5764607523034235 / 72057594037927936)"
  by (simp_all add: round_double_def exponent_values pow2_def round_even_def Let_def)

lemma closes_window:
  "map (\<lambda>j. closes ! (4 - j) ! 1) [0..<nat 3] = [Finite 20, Finite 15, Finite 8]"
  by (simp add: closes_def upt_conv_Cons)

lemma closes_sum: "foldl fadd (Finite 0) [Finite 20, Finite 15, Finite 8] = Finite 43"
  by (simp add: round_double_values)

lemma closes_quotient: "fdiv_int (Finite 43) 3 = Finite (8068949332372139 / 562949953421312)"
  by (simp add: round_double_values)

lemma closes_fixed:
  "toFixed_number 2 (Finite (8068949332372139 / 562949953421312))
     = Finite (8067072832527401 / 562949953421312)"
  by (simp add: round_double_values)

lemma small_window:
  "map (\<lambda>j. small_closes ! (4 - j) ! 1) [0..<nat 5]
     = [Finite 0, Finite 0, Finite 0, Finite 0, Finite (3 / 8)]"
  by (simp add: small_closes_def upt_conv_Cons)

lemma small_sum:
  "foldl fadd (Finite 0) [Finite 0, Finite 0, Finite 0, Finite 0, Finite (3 / 8)] = Finite (3 / 8)"
  by (simp add: round_double_values)

lemma small_quotient:
  "fdiv_int (Finite (3 / 8)) 5 = Finite (5404319552844595 / 72057594037927936)"
  by (simp add: round_double_values)

lemma small_fixed:
  "toFixed_number 2 (Finite (5404319552844595 / 72057594037927936))
     = Finite (1261007895663739 / 18014398509481984)"
  by (simp add: round_double_values)

lemma closes_exact: "exact_sums 0 [Finite 20, Finite 15, Finite 8]"
  by (simp add: round_double_values)

theorem calculateMA_spec_witness:
  "(1::int) \<le> 3 \<and> list_all (\<lambda>row. 2 \<le> length row) closes
   \<and> calculateMA closes 3 ! 0 = Dash \<and> calculateMA closes 3 ! 1 = Dash
   \<and> calculateMA closes 3 ! 4 = Value (round_double (1433 / 100))
   \<and> round_double (1433 / 100) = Finite (8067072832527401 / 562949953421312)
   \<and> exact_sums 0 (map (\<lambda>j. closes ! (4 - j) ! 1) [0..<nat 3])
   \<and> toFixed_number 2 (round_double ((20 + 15 + 8) / 3)) = round_double (1433 / 100)"
proof -
  have w: "(1::int) \<le> 3" by simp
  have len: "length closes = 5" by (simp add: closes_def)
  note entry = calculateMA_spec [OF w closes_rows, THEN conjunct2, THEN conjunct1, rule_format]
  have "calculateMA closes 3 ! 4 =
      Value (toFixed_number 2 (fdiv_int
        (foldl fadd (Finite 0) (map (\<lambda>j. closes ! (4 - j) ! 1) [0..<nat 3])) 3))"
    using entry [of 4] by (simp add: len)
  also have "\<dots> = Value (Finite (8067072832527401 / 562949953421312))"
    by (simp only: closes_window closes_sum closes_quotient closes_fixed)
  also have "\<dots> = Value (round_double (1433 / 100))"
    by (simp only: round_double_values)
  finally have four: "calculateMA closes 3 ! 4 = Value (round_double (1433 / 100))" .
  have zero: "calculateMA closes 3 ! 0 = Dash" using entry [of 0] by (simp add: len)
  have one: "calculateMA closes 3 ! 1 = Dash" using entry [of 1] by (simp add: len)
  have rows: "list_all (\<lambda>row. 2 \<le> length row) closes"
    using closes_rows by (simp only: list_all_iff)
  have exact: "exact_sums 0 (map (\<lambda>j. closes ! (4 - j) ! 1) [0..<nat 3])"
    by (simp only: closes_window closes_exact)
  have mean: "toFixed_number 2 (round_double ((20 + 15 + 8) / 3)) = round_double (1433 / 100)"
    using closes_fixed by (simp add: round_double_values)
  from w rows zero one four round_double_values(6) exact mean show ?thesis
    by (simp only: simp_thms)
qed

text \<open>
  C4 as stated asks for the arithmetic mean. For the close prices \<open>0.375, 0, 0, 0, 0\<close>
  and \<open>w = 5\<close> the mean of the five values is \<open>0.075\<close>. The sum is the double \<open>0.375\<close>,
  its quotient by 5 is the double next below \<open>0.075\<close>, and \<^verbatim>\<open>toFixed(2)\<close> rounds that
  down: the entry at index 4 is the number \<open>0.07\<close>, which is neither the mean nor the
  mean rounded to two decimals, \<open>0.08\<close>.
\<close>

theorem calculateMA_mean_counterexample:
  "calculateMA small_closes 5 ! 4 = Value (round_double (7 / 100))
   \<and> calculateMA small_closes 5 ! 4 \<noteq> Value (Finite ((3 / 8 + 0 + 0 + 0 + 0) / 5))
   \<and> calculateMA small_closes 5 ! 4 \<noteq> Value (round_double (8 / 100))"
proof -
  have rows: "\<forall>row \<in> set small_closes. 2 \<le> length row"
    by (simp add: small_closes_def)
  have len: "length small_closes = 5" by (simp add: small_closes_def)
  have "calculateMA small_closes 5 ! 4 = ma_at small_closes 5 4"
    by (rule calculateMA_nth) (simp add: len)
  also have "\<dots> = Value (toFixed_number 2 (fdiv_int (window_sum small_closes 4 5) 5))"
    by (simp add: ma_at_def)
  also have "window_sum small_closes 4 5 =
      foldl fadd (Finite 0) (map (\<lambda>j. small_closes ! (4 - j) ! 1) [0..<nat 5])"
    by (rule window_sum_rows [OF rows]) (simp_all add: len)
  also have "Value (toFixed_number 2 (fdiv_int
      (foldl fadd (Finite 0) (map (\<lambda>j. small_closes ! (4 - j) ! 1) [0..<nat 5])) 5))
      = Value (Finite (1261007895663739 / 18014398509481984))"
    by (simp only: small_window small_sum small_quotient small_fixed)
  finally have v: "calculateMA small_closes 5 ! 4
      = Value (Finite (1261007895663739 / 18014398509481984))" .
  have a: "round_double (7 / 100) = Finite (1261007895663739 / 18014398509481984)"
    by (rule round_double_values)
  have b: "round_double (8 / 100) = Finite (5764607523034235 / 72057594037927936)"
    using round_double_values(10) by simp
  show ?thesis
    unfolding v a b by simp
qed

section \<open>Properties of the sorted statistics\<close>

text \<open>
  The comparator of the page is the order of the key \<open>abs_key\<close>, so \<open>array_sort\<close> with
  it is the library's stable insertion sort by that key.
\<close>

lemma insert_cmp_insort: "insert_cmp compareFn x ys = insort_key abs_key x ys"
  by (induction ys) (simp_all add: compareFn_def abs_key_def)

lemma array_sort_sort_key: "array_sort compareFn xs = sort_key abs_key xs"
  by (induction xs) (simp_all add: array_sort_def insert_cmp_insort)

lemma mset_array_sort: "mset (array_sort compareFn xs) = mset xs"
  by (simp add: array_sort_sort_key)

lemma sorted_array_sort:
  "sorted_wrt (\<lambda>a b. \<bar>change_percentage a\<bar> \<ge> \<bar>change_percentage b\<bar>) (array_sort compareFn xs)"
proof -
  have "sorted (map abs_key (sort_key abs_key xs))"
    by (rule sorted_sort_key)
  then show ?thesis
    by (simp add: array_sort_sort_key sorted_map abs_key_def)
qed

lemma stable_array_sort:
  "filter (\<lambda>e. \<bar>change_percentage e\<bar> = k) (array_sort compareFn xs)
     = filter (\<lambda>e. \<bar>change_percentage e\<bar> = k) xs"
proof -
  have "filter (\<lambda>e. abs_key e = - k) (sort_key abs_key xs) = filter (\<lambda>e. abs_key e = - k) xs"
    by (rule sort_key_stable)
  then show ?thesis
    by (simp add: array_sort_sort_key abs_key_def)
qed

lemma array_sort_idem:
  "array_sort compareFn (array_sort compareFn xs) = array_sort compareFn xs"
proof -
  have "sorted (map abs_key (sort_key abs_key xs))"
    by (rule sorted_sort_key)
  then have "sort_key abs_key (sort_key abs_key xs) = sort_key abs_key xs"
    by (rule sort_key_id_if_sorted)
  then show ?thesis
    by (simp add: array_sort_sort_key)
qed

lemma sorted_wrt_take_drop:
  assumes "sorted_wrt R xs"
  shows "\<forall>a \<in> set (take n xs). \<forall>b \<in> set (drop n xs). R a b"
proof -
  have "sorted_wrt R (take n xs @ drop n xs)" using assms by simp
  then show ?thesis unfolding sorted_wrt_append by blast
qed

lemma sorted_gainers:
  "sorted_wrt (\<lambda>a b. \<bar>change_percentage a\<bar> \<ge> \<bar>change_percentage b\<bar>)
     (gainers (array_sort compareFn d))"
  unfolding gainers_def by (rule sorted_wrt_filter) (rule sorted_array_sort)

lemma sorted_losers:
  "sorted_wrt (\<lambda>a b. \<bar>change_percentage a\<bar> \<ge> \<bar>change_percentage b\<bar>)
     (losers (array_sort compareFn d))"
  unfolding losers_def by (rule sorted_wrt_filter) (rule sorted_array_sort)

text \<open>
  C6. For every result set \<open>d\<close>, sorted as \<^verbatim>\<open>fetchData\<close> sorts it: the gainers are
  exactly the entries of \<open>d\<close> with \<open>change_percentage > 0\<close> and the losers exactly those
  with \<open>change_percentage < 0\<close> (as multisets, so no entry is lost or doubled); each
  partition is in descending order of \<open>|change_percentage|\<close>; whatever number \<open>n\<close> of
  top entries a caller takes, none of them has a smaller absolute change than an entry
  left out; and each of the four tables of the dashboard is the first five entries of its
  partition.
\<close>

theorem ranking_partitions:
  "mset (gainers (array_sort compareFn d)) = {#e \<in># mset d. change_percentage e > 0#}
   \<and> mset (losers (array_sort compareFn d)) = {#e \<in># mset d. change_percentage e < 0#}
   \<and> sorted_wrt (\<lambda>a b. \<bar>change_percentage a\<bar> \<ge> \<bar>change_percentage b\<bar>)
         (gainers (array_sort compareFn d))
   \<and> sorted_wrt (\<lambda>a b. \<bar>change_percentage a\<bar> \<ge> \<bar>change_percentage b\<bar>)
         (losers (array_sort compareFn d))
   \<and> (\<forall>a \<in> set (take n (gainers (array_sort compareFn d))).
        \<forall>b \<in> set (drop n (gainers (array_sort compareFn d))).
          \<bar>change_percentage a\<bar> \<ge> \<bar>change_percentage b\<bar>)
   \<and> (\<forall>a \<in> set (take n (losers (array_sort compareFn d))).
        \<forall>b \<in> set (drop n (losers (array_sort compareFn d))).
          \<bar>change_percentage a\<bar> \<ge> \<bar>change_percentage b\<bar>)
   \<and> top5_up_7d (sortStats s) = take 5 (gainers (array_sort compareFn (day7 s)))
   \<and> top5_down_7d (sortStats s) = take 5 (losers (array_sort compareFn (day7 s)))
   \<and> top5_up_24h (sortStats s) = take 5 (gainers (array_sort compareFn (day1 s)))
   \<and> top5_down_24h (sortStats s) = take 5 (losers (array_sort compareFn (day1 s)))"
proof -
  have g: "mset (gainers (array_sort compareFn d)) = {#e \<in># mset d. change_percentage e > 0#}"
    by (simp add: gainers_def mset_array_sort)
  have l: "mset (losers (array_sort compareFn d)) = {#e \<in># mset d. change_percentage e < 0#}"
    by (simp add: losers_def mset_array_sort)
  have t: "top5_up_7d (sortStats s) = take 5 (gainers (array_sort compareFn (day7 s)))"
    "top5_down_7d (sortStats s) = take 5 (losers (array_sort compareFn (day7 s)))"
    "top5_up_24h (sortStats s) = take 5 (gainers (array_sort compareFn (day1 s)))"
    "top5_down_24h (sortStats s) = take 5 (losers (array_sort compareFn (day1 s)))"
    by (simp_all add: top5_up_7d_def top5_down_7d_def top5_up_24h_def top5_down_24h_def
        sortStats_def slice_0_5_def)
  show ?thesis
    using g l t sorted_gainers [of d] sorted_losers [of d]
      sorted_wrt_take_drop [OF sorted_gainers [of d], of n]
      sorted_wrt_take_drop [OF sorted_losers [of d], of n]
    by (simp only: simp_thms)
qed

lemma cp_stat: "change_percentage (stat i c) = c"
  by (simp add: stat_def)

lemma sort_example:
  "array_sort compareFn [stat 1 5, stat 2 (- 20), stat 3 10] = [stat 2 (- 20), stat 3 10, stat 1 5]"
  by (simp add: array_sort_def compareFn_def cp_stat)

theorem ranking_partitions_witness:
  "gainers (array_sort compareFn [stat 1 5, stat 2 (- 20), stat 3 10]) = [stat 3 10, stat 1 5]
   \<and> losers (array_sort compareFn [stat 1 5, stat 2 (- 20), stat 3 10]) = [stat 2 (- 20)]
   \<and> \<bar>change_percentage (stat 3 10)\<bar> \<ge> \<bar>change_percentage (stat 1 5)\<bar>
   \<and> top5_up_7d (sortStats \<lparr>day7 = [stat 1 5, stat 2 (- 20), stat 3 10], day1 = []\<rparr>)
        = [stat 3 10, stat 1 5]"
proof -
  have g: "gainers (array_sort compareFn [stat 1 5, stat 2 (- 20), stat 3 10]) = [stat 3 10, stat 1 5]"
    by (simp add: sort_example gainers_def cp_stat)
  have l: "losers (array_sort compareFn [stat 1 5, stat 2 (- 20), stat 3 10]) = [stat 2 (- 20)]"
    by (simp add: sort_example losers_def cp_stat)
  from ranking_partitions [of "[stat 1 5, stat 2 (- 20), stat 3 10]" 1
      "\<lparr>day7 = [stat 1 5, stat 2 (- 20), stat 3 10], day1 = []\<rparr>"]
  show ?thesis
    by (simp add: g l)
qed

text \<open>
  C9. The sort is a function of its input, and what it does with ties is fixed: entries
  tied in \<open>|change_percentage|\<close>, and so entries tied in \<open>change_percentage\<close>, stand in
  the result in the order they have in the input, so every call on the same data gives
  the same order. Sorting a list that is sorted already, as a repeated call on the stored
  statistics does, changes nothing.
\<close>

theorem sort_ties_keep_order:
  "filter (\<lambda>e. \<bar>change_percentage e\<bar> = k) (array_sort compareFn d)
     = filter (\<lambda>e. \<bar>change_percentage e\<bar> = k) d
   \<and> filter (\<lambda>e. change_percentage e = c) (array_sort compareFn d)
     = filter (\<lambda>e. change_percentage e = c) d
   \<and> array_sort compareFn (array_sort compareFn d) = array_sort compareFn d
   \<and> sortStats (sortStats s) = sortStats s"
proof -
  have split: "filter (\<lambda>e. change_percentage e = c) xs
      = filter (\<lambda>e. change_percentage e = c) (filter (\<lambda>e. \<bar>change_percentage e\<bar> = \<bar>c\<bar>) xs)"
    for xs :: "ItemStats list"
    by (induction xs) simp_all
  have "filter (\<lambda>e. change_percentage e = c) (array_sort compareFn d)
      = filter (\<lambda>e. change_percentage e = c) d"
    by (subst split, subst stable_array_sort, subst split [symmetric]) (rule refl)
  then show ?thesis
    by (simp add: stable_array_sort array_sort_idem sortStats_def)
qed

lemma sort_ties_example:
  "array_sort compareFn [stat 1 5, stat 2 (- 5), stat 3 10, stat 4 5]
     = [stat 3 10, stat 1 5, stat 2 (- 5), stat 4 5]"
  by (simp add: array_sort_def compareFn_def cp_stat)

theorem sort_ties_keep_order_witness:
  "array_sort compareFn [stat 1 5, stat 2 (- 5), stat 3 10, stat 4 5]
     = [stat 3 10, stat 1 5, stat 2 (- 5), stat 4 5]
   \<and> filter (\<lambda>e. \<bar>change_percentage e\<bar> = 5)
        (array_sort compareFn [stat 1 5, stat 2 (- 5), stat 3 10, stat 4 5])
     = [stat 1 5, stat 2 (- 5), stat 4 5]
   \<and> array_sort compareFn [stat 3 10, stat 1 5, stat 2 (- 5), stat 4 5]
     = [stat 3 10, stat 1 5, stat 2 (- 5), stat 4 5]"
proof -
  have "filter (\<lambda>e. \<bar>change_percentage e\<bar> = 5) [stat 1 5, stat 2 (- 5), stat 3 10, stat 4 5]
      = [stat 1 5, stat 2 (- 5), stat 4 5]"
    by (simp add: cp_stat)
  with sort_ties_keep_order [of 5 "[stat 1 5, stat 2 (- 5), stat 3 10, stat 4 5]"]
    sort_ties_example
  show ?thesis by simp
qed

section \<open>Properties of the synchronisation\<close>

lemma register_item_prefix: "prefix (items S) (items (register_item n S))"
  by (simp add: register_item_def)

lemma register_item_noop: "n \<in> set (map item_name (items S)) \<Longrightarrow> register_item n S = S"
  by (simp add: register_item_def)

lemma register_item_registers: "n \<in> set (map item_name (items (register_item n S)))"
  by (simp add: register_item_def)

lemma fold_register_prefix: "prefix (items S) (items (fold register_item ns S))"
proof (induction ns arbitrary: S)
  case Nil
  then show ?case by simp
next
  case (Cons n ns)
  have "prefix (items S) (items (register_item n S))"
    by (rule register_item_prefix)
  also have "prefix (items (register_item n S)) (items (fold register_item ns (register_item n S)))"
    by (rule Cons.IH)
  finally show ?case by simp
qed

lemma fold_register_noop:
  "set ns \<subseteq> set (map item_name (items S)) \<Longrightarrow> fold register_item ns S = S"
  by (induction ns) (simp_all add: register_item_noop)

lemma prefix_names:
  assumes "prefix (items S) (items S')"
  shows "set (map item_name (items S)) \<subseteq> set (map item_name (items S'))"
proof -
  from assms have "set (items S) \<subseteq> set (items S')" by (rule set_mono_prefix)
  then show ?thesis by auto
qed

lemma fold_register_registers:
  "set ns \<subseteq> set (map item_name (items (fold register_item ns S)))"
proof (induction ns arbitrary: S)
  case Nil
  then show ?case by simp
next
  case (Cons n ns)
  have "n \<in> set (map item_name (items (register_item n S)))"
    by (rule register_item_registers)
  moreover have "set (map item_name (items (register_item n S)))
      \<subseteq> set (map item_name (items (fold register_item ns (register_item n S))))"
    by (rule prefix_names) (rule fold_register_prefix)
  ultimately have "n \<in> set (map item_name (items (fold register_item ns (register_item n S))))"
    by blast
  with Cons.IH [of "register_item n S"] show ?case by simp
qed

lemma items_sync: "items (sync R S) = items (fold register_item (raw_names R) S)"
  by (simp add: sync_def Let_def)

lemma sync_prefix: "prefix (items S) (items (sync R S))"
  unfolding items_sync by (rule fold_register_prefix)

lemma sync_all_prefix: "prefix (items S) (items (sync_all Rs S))"
  unfolding sync_all_def
proof (induction Rs arbitrary: S)
  case Nil
  then show ?case by simp
next
  case (Cons R Rs)
  have "prefix (items S) (items (sync R S))"
    by (rule sync_prefix)
  also have "prefix (items (sync R S)) (items (fold sync Rs (sync R S)))"
    by (rule Cons.IH)
  finally show ?case by simp
qed

lemma fold_register_sync: "fold register_item (raw_names R) (sync R S) = sync R S"
proof (rule fold_register_noop)
  show "set (raw_names R) \<subseteq> set (map item_name (items (sync R S)))"
    unfolding items_sync by (rule fold_register_registers)
qed

lemma sync_idem: "sync R (sync R S) = sync R S"
proof -
  have "sync R (sync R S) =
      (sync R S)\<lparr>prices := write_batches (batches 1000
        (pivot Ask (items (sync R S)) (ask R) @ pivot Bid (items (sync R S)) (bid R))) []\<rparr>"
    by (subst sync_def) (simp add: Let_def fold_register_sync)
  also have "\<dots> = sync R S"
    by (simp add: sync_def Let_def)
  finally show ?thesis .
qed

lemma find_append_Some: "find P xs = Some x \<Longrightarrow> find P (xs @ zs) = Some x"
  by (induction xs) (auto split: if_splits)

lemma lookup_id_prefix:
  assumes "prefix xs ys" and "lookup_id xs n = Some i"
  shows "lookup_id ys n = Some i"
proof -
  from assms(1) obtain zs where ys: "ys = xs @ zs" by (auto simp: prefix_def)
  from assms(2) obtain it where "find (\<lambda>it. item_name it = n) xs = Some it" and "item_id it = i"
    by (auto simp: lookup_id_def)
  then show ?thesis
    by (simp add: lookup_id_def ys find_append_Some)
qed

lemma write_batches_append: "write_batches bs tbl = tbl @ concat bs"
  unfolding write_batches_def by (induction bs arbitrary: tbl) simp_all

lemma concat_batches: "0 < n \<Longrightarrow> concat (batches n xs) = xs"
proof (induction n xs rule: batches.induct)
  case (1 n xs)
  then show ?case
    by (subst batches.simps) simp
qed

lemma prices_sync:
  "prices (sync R S) =
     pivot Ask (items (sync R S)) (ask R) @ pivot Bid (items (sync R S)) (bid R)"
  by (simp add: sync_def Let_def write_batches_append concat_batches)

lemma items_example: "items (sync raw_example empty_store) =
    [\<lparr>item_id = 1, item_name = ''Milk''\<rparr>, \<lparr>item_id = 2, item_name = ''Cheese''\<rparr>]"
  by (simp add: items_sync raw_names_def raw_example_def empty_store_def register_item_def)

lemma sync_example:
  "prices (sync raw_example empty_store) =
     [\<lparr>timestamp = 100, obs_item = 1, price = 100, side = Ask\<rparr>,
      \<lparr>timestamp = 200, obs_item = 1, price = 12.5, side = Ask\<rparr>,
      \<lparr>timestamp = 200, obs_item = 2, price = 7, side = Ask\<rparr>,
      \<lparr>timestamp = 100, obs_item = 1, price = 90, side = Bid\<rparr>]"
  unfolding prices_sync items_example
  by (simp add: raw_example_def pivot_def pivot_row_def List.map_filter_simps lookup_id_def to_double_def)

text \<open>
  C1. For every raw store \<open>R\<close> and every normalized store \<open>S\<close>, a second sync against
  the unchanged \<open>R\<close> leaves what the first one produced: the same items (the same pairs of
  identifier and name) and the same multiset of price observations; in the model the
  whole store is the same.
\<close>

theorem sync_idempotent:
  "set (map (\<lambda>it. (item_id it, item_name it)) (items (sync R (sync R S))))
     = set (map (\<lambda>it. (item_id it, item_name it)) (items (sync R S)))
   \<and> mset (prices (sync R (sync R S))) = mset (prices (sync R S))
   \<and> sync R (sync R S) = sync R S"
  by (simp add: sync_idem)

theorem sync_idempotent_witness:
  "items (sync raw_example (sync raw_example empty_store)) =
     [\<lparr>item_id = 1, item_name = ''Milk''\<rparr>, \<lparr>item_id = 2, item_name = ''Cheese''\<rparr>]
   \<and> prices (sync raw_example (sync raw_example empty_store)) =
     [\<lparr>timestamp = 100, obs_item = 1, price = 100, side = Ask\<rparr>,
      \<lparr>timestamp = 200, obs_item = 1, price = 12.5, side = Ask\<rparr>,
      \<lparr>timestamp = 200, obs_item = 2, price = 7, side = Ask\<rparr>,
      \<lparr>timestamp = 100, obs_item = 1, price = 90, side = Bid\<rparr>]"
proof -
  from sync_idempotent [of raw_example empty_store]
  have "sync raw_example (sync raw_example empty_store) = sync raw_example empty_store"
    by blast
  then show ?thesis
    by (simp only: items_example sync_example simp_thms)
qed

text \<open>
  C3. For every sequence \<open>Rs\<close> of syncs from a store \<open>S\<close>: the item table of \<open>S\<close> is a
  prefix of the item table afterwards, so every item of \<open>S\<close> is still there with its
  identifier and its name, the set of identifiers only grows, and a name keeps the
  identifier it had. Registering a name that is registered already leaves the store as it
  is, and a sync that observes only registered names leaves the item table as it is.
\<close>

theorem item_registry_monotonic:
  "prefix (items S) (items (sync_all Rs S))
   \<and> item_id ` set (items S) \<subseteq> item_id ` set (items (sync_all Rs S))
   \<and> (it \<in> set (items S) \<longrightarrow> it \<in> set (items (sync_all Rs S)))
   \<and> (lookup_id (items S) n = Some i \<longrightarrow> lookup_id (items (sync_all Rs S)) n = Some i)
   \<and> (n \<in> item_name ` set (items S) \<longrightarrow> register_item n S = S)
   \<and> (set (raw_names R) \<subseteq> item_name ` set (items S) \<longrightarrow> items (sync R S) = items S)"
proof -
  have p: "prefix (items S) (items (sync_all Rs S))"
    by (rule sync_all_prefix)
  then have s: "set (items S) \<subseteq> set (items (sync_all Rs S))"
    by (rule set_mono_prefix)
  have l: "lookup_id (items S) n = Some i \<longrightarrow> lookup_id (items (sync_all Rs S)) n = Some i"
    using lookup_id_prefix [OF p] by blast
  have r: "n \<in> item_name ` set (items S) \<longrightarrow> register_item n S = S"
    using register_item_noop [of n S] by simp
  have f: "set (raw_names R) \<subseteq> item_name ` set (items S) \<longrightarrow> items (sync R S) = items S"
    using fold_register_noop [of "raw_names R" S] by (simp add: items_sync)
  from p s l r f show ?thesis by blast
qed

theorem item_registry_monotonic_witness:
  "items (sync_all [raw_example2] store_example) =
     [\<lparr>item_id = 1, item_name = ''Milk''\<rparr>, \<lparr>item_id = 2, item_name = ''Cheese''\<rparr>,
      \<lparr>item_id = 3, item_name = ''Egg''\<rparr>]
   \<and> \<lparr>item_id = 2, item_name = ''Cheese''\<rparr> \<in> set (items store_example)
   \<and> \<lparr>item_id = 2, item_name = ''Cheese''\<rparr> \<in> set (items (sync_all [raw_example2] store_example))
   \<and> lookup_id (items store_example) ''Milk'' = Some 1
   \<and> lookup_id (items (sync_all [raw_example2] store_example)) ''Milk'' = Some 1
   \<and> ''Milk'' \<in> item_name ` set (items store_example)
   \<and> register_item ''Milk'' store_example = store_example
   \<and> set (raw_names raw_example) \<subseteq> item_name ` set (items store_example)
   \<and> items (sync raw_example store_example) = items store_example"
proof -
  have a: "items (sync_all [raw_example2] store_example) =
     [\<lparr>item_id = 1, item_name = ''Milk''\<rparr>, \<lparr>item_id = 2, item_name = ''Cheese''\<rparr>,
      \<lparr>item_id = 3, item_name = ''Egg''\<rparr>]"
    by (simp add: sync_all_def items_sync raw_names_def raw_example2_def store_example_def
        register_item_def)
  have b: "\<lparr>item_id = 2, item_name = ''Cheese''\<rparr> \<in> set (items store_example)"
    by (simp add: store_example_def)
  have c: "lookup_id (items store_example) ''Milk'' = Some 1"
    by (simp add: store_example_def lookup_id_def)
  have d: "''Milk'' \<in> item_name ` set (items store_example)"
    by (simp add: store_example_def)
  have e: "set (raw_names raw_example) \<subseteq> item_name ` set (items store_example)"
    by (simp add: raw_names_def raw_example_def store_example_def)
  from item_registry_monotonic [of store_example "[raw_example2]"
      "\<lparr>item_id = 2, item_name = ''Cheese''\<rparr>" "''Milk''" 1 raw_example]
    a b c d e
  show ?thesis by blast
qed

section \<open>Properties of computeChangeRankings\<close>

lemma sorted_last_Max:
  assumes "sorted (map timestamp s)" and "s \<noteq> []"
  shows "timestamp (last s) = Max (timestamp ` set s)"
proof -
  have s: "s = butlast s @ [last s]" using assms(2) by simp
  have "sorted_wrt (\<lambda>a b. timestamp a \<le> timestamp b) (butlast s @ [last s])"
    using assms(1) s by (simp add: sorted_map)
  then have "\<forall>y \<in> set (butlast s). timestamp y \<le> timestamp (last s)"
    by (simp add: sorted_wrt_append)
  moreover have "set s = insert (last s) (set (butlast s))"
    by (subst s) simp
  ultimately have "Max (timestamp ` set s) = timestamp (last s)"
    by (intro Max_eqI) auto
  then show ?thesis by simp
qed

lemma set_map_filter: "set (List.map_filter f xs) = {y. \<exists>x \<in> set xs. f x = Some y}"
  by (induction xs) (auto simp: List.map_filter_simps split: option.splits)

lemma latest_None_iff:
  "latest_at_or_before t i obs = None
     \<longleftrightarrow> \<not> (\<exists>x \<in> set obs. obs_item x = i \<and> timestamp x \<le> t)"
proof -
  let ?f = "filter (\<lambda>x. obs_item x = i \<and> timestamp x \<le> t) obs"
  have "latest_at_or_before t i obs = None \<longleftrightarrow> sort_key timestamp ?f = []"
    by (simp add: latest_at_or_before_def split: list.splits)
  also have "\<dots> \<longleftrightarrow> length (sort_key timestamp ?f) = 0"
    by (simp only: length_0_conv)
  also have "\<dots> \<longleftrightarrow> ?f = []"
    by simp
  also have "\<dots> \<longleftrightarrow> \<not> (\<exists>x \<in> set obs. obs_item x = i \<and> timestamp x \<le> t)"
    by (simp add: filter_empty_conv)
  finally show ?thesis .
qed

lemma latest_Some:
  assumes "latest_at_or_before t i obs = Some p"
  shows "\<exists>x \<in> set obs. obs_item x = i \<and> timestamp x \<le> t \<and> price x = p
     \<and> timestamp x = Max (timestamp ` {y \<in> set obs. obs_item y = i \<and> timestamp y \<le> t})"
proof -
  define s where "s = sort_key timestamp (filter (\<lambda>x. obs_item x = i \<and> timestamp x \<le> t) obs)"
  have set: "set s = {y \<in> set obs. obs_item y = i \<and> timestamp y \<le> t}"
    by (auto simp: s_def)
  have sorted: "sorted (map timestamp s)"
    by (simp add: s_def)
  from assms have ne: "s \<noteq> []" and p: "p = price (last s)"
    by (auto simp: latest_at_or_before_def s_def [symmetric] split: list.splits)
  have "last s \<in> set s" using ne by simp
  moreover have "timestamp (last s) = Max (timestamp ` set s)"
    using sorted ne by (rule sorted_last_Max)
  ultimately show ?thesis
    using p unfolding set by blast
qed

lemma ranking_entry_Some:
  "ranking_entry now lb obs i = Some r \<longleftrightarrow>
     (\<exists>reference current.
        latest_at_or_before (now - lb) i obs = Some reference
      \<and> latest_at_or_before now i obs = Some current \<and> reference \<noteq> 0
      \<and> r = \<lparr>rank_item = i, rank_old_price = reference, rank_current_price = current,
               rank_change = (current - reference) / reference * 100\<rparr>)"
  by (auto simp: ranking_entry_def split: option.splits)

text \<open>
  C7. The latest price at or before \<open>t\<close> is undefined exactly when the item has no
  observation at or before \<open>t\<close>, and otherwise is the price of an observation of the
  item with the greatest such timestamp. An item whose reference price (at or before
  \<open>now - lookbackWindow\<close>) or current price (at or before \<open>now\<close>) is undefined, or whose
  reference price is 0, has no entry in the ranking at all. Every entry of the ranking
  belongs to a requested item, carries its reference and current price, has a reference
  price other than 0 and the change \<open>(current - reference) / reference * 100\<close>. An item
  with reference price 100 and current price 120 has the entry with change 20, among the
  gainers.
\<close>

theorem change_ranking_rules:
  "(latest_at_or_before t i obs = None
      \<longleftrightarrow> \<not> (\<exists>x \<in> set obs. obs_item x = i \<and> timestamp x \<le> t))
   \<and> (latest_at_or_before t i obs = Some p \<longrightarrow>
        (\<exists>x \<in> set obs. obs_item x = i \<and> timestamp x \<le> t \<and> price x = p
           \<and> timestamp x = Max (timestamp ` {y \<in> set obs. obs_item y = i \<and> timestamp y \<le> t})))
   \<and> (latest_at_or_before (now - lb) i obs = None \<or> latest_at_or_before now i obs = None
        \<or> latest_at_or_before (now - lb) i obs = Some 0
      \<longrightarrow> i \<notin> rank_item ` set (computeChangeRankings now lb its obs))
   \<and> (\<forall>r \<in> set (computeChangeRankings now lb its obs).
        rank_item r \<in> item_id ` set its
      \<and> latest_at_or_before (now - lb) (rank_item r) obs = Some (rank_old_price r)
      \<and> latest_at_or_before now (rank_item r) obs = Some (rank_current_price r)
      \<and> rank_old_price r \<noteq> 0
      \<and> rank_change r = (rank_current_price r - rank_old_price r) / rank_old_price r * 100)
   \<and> (i \<in> item_id ` set its \<and> latest_at_or_before (now - lb) i obs = Some 100
        \<and> latest_at_or_before now i obs = Some 120
      \<longrightarrow> \<lparr>rank_item = i, rank_old_price = 100, rank_current_price = 120, rank_change = 20\<rparr>
            \<in> set (rank_gainers (computeChangeRankings now lb its obs)))"
proof -
  have entries: "rank_item r \<in> item_id ` set its
      \<and> latest_at_or_before (now - lb) (rank_item r) obs = Some (rank_old_price r)
      \<and> latest_at_or_before now (rank_item r) obs = Some (rank_current_price r)
      \<and> rank_old_price r \<noteq> 0
      \<and> rank_change r = (rank_current_price r - rank_old_price r) / rank_old_price r * 100"
    if "r \<in> set (computeChangeRankings now lb its obs)" for r
  proof -
    from that obtain j where j: "j \<in> item_id ` set its" "ranking_entry now lb obs j = Some r"
      by (auto simp: computeChangeRankings_def set_map_filter)
    from j(2) obtain reference current where
      "latest_at_or_before (now - lb) j obs = Some reference"
      "latest_at_or_before now j obs = Some current" "reference \<noteq> 0"
      "r = \<lparr>rank_item = j, rank_old_price = reference, rank_current_price = current,
             rank_change = (current - reference) / reference * 100\<rparr>"
      unfolding ranking_entry_Some by blast
    with j(1) show ?thesis by simp
  qed
  have excluded: "i \<notin> rank_item ` set (computeChangeRankings now lb its obs)"
    if "latest_at_or_before (now - lb) i obs = None \<or> latest_at_or_before now i obs = None
        \<or> latest_at_or_before (now - lb) i obs = Some 0"
  proof
    assume "i \<in> rank_item ` set (computeChangeRankings now lb its obs)"
    then obtain r where "r \<in> set (computeChangeRankings now lb its obs)" "rank_item r = i"
      by auto
    with entries [of r] that show False by auto
  qed
  have example: "\<lparr>rank_item = i, rank_old_price = 100, rank_current_price = 120, rank_change = 20\<rparr>
            \<in> set (rank_gainers (computeChangeRankings now lb its obs))"
    if "i \<in> item_id ` set its" "latest_at_or_before (now - lb) i obs = Some 100"
      "latest_at_or_before now i obs = Some 120"
  proof -
    have "ranking_entry now lb obs i =
        Some \<lparr>rank_item = i, rank_old_price = 100, rank_current_price = 120, rank_change = 20\<rparr>"
      using that(2,3) by (simp add: ranking_entry_def)
    with that(1) have "\<lparr>rank_item = i, rank_old_price = 100, rank_current_price = 120, rank_change = 20\<rparr>
        \<in> set (computeChangeRankings now lb its obs)"
      by (auto simp: computeChangeRankings_def set_map_filter)
    then show ?thesis by (simp add: rank_gainers_def)
  qed
  from latest_None_iff [of t i obs] latest_Some [of t i obs p] entries excluded example
  show ?thesis by blast
qed

lemma ranking_latest:
  "latest_at_or_before 900 10 ranking_obs = Some 100"
  "latest_at_or_before 1000 10 ranking_obs = Some 120"
  "latest_at_or_before 900 20 ranking_obs = None"
  "latest_at_or_before 1000 20 ranking_obs = Some 50"
  "latest_at_or_before 900 30 ranking_obs = Some 0"
  "latest_at_or_before 1000 30 ranking_obs = Some 5"
  by (simp_all add: latest_at_or_before_def ranking_obs_def)

lemma ranking_run:
  "computeChangeRankings 1000 100 ranking_items ranking_obs =
     [\<lparr>rank_item = 10, rank_old_price = 100, rank_current_price = 120, rank_change = 20\<rparr>]"
  by (simp add: computeChangeRankings_def ranking_items_def List.map_filter_simps
      ranking_entry_def ranking_latest)

theorem change_ranking_rules_witness:
  "computeChangeRankings 1000 100 ranking_items ranking_obs =
     [\<lparr>rank_item = 10, rank_old_price = 100, rank_current_price = 120, rank_change = 20\<rparr>]
   \<and> rank_gainers (computeChangeRankings 1000 100 ranking_items ranking_obs) =
     [\<lparr>rank_item = 10, rank_old_price = 100, rank_current_price = 120, rank_change = 20\<rparr>]
   \<and> latest_at_or_before (1000 - 100) 20 ranking_obs = None
   \<and> 20 \<notin> rank_item ` set (computeChangeRankings 1000 100 ranking_items ranking_obs)
   \<and> latest_at_or_before (1000 - 100) 30 ranking_obs = Some 0
   \<and> 30 \<notin> rank_item ` set (computeChangeRankings 1000 100 ranking_items ranking_obs)"
proof -
  have none: "latest_at_or_before (1000 - 100) 20 ranking_obs = None"
    by (simp add: ranking_latest)
  from change_ranking_rules [of "1000 - 100" 20 ranking_obs 0 1000 100 ranking_items] none
  have "20 \<notin> rank_item ` set (computeChangeRankings 1000 100 ranking_items ranking_obs)"
    by blast
  moreover have "30 \<notin> rank_item ` set (computeChangeRankings 1000 100 ranking_items ranking_obs)"
    by (simp add: ranking_run)
  ultimately show ?thesis
    by (simp add: ranking_run ranking_latest rank_gainers_def)
qed

end
